theory Spec2Isabelle
  imports Main
begin

section \<open>The standard thread handle used by \<open>autothread.h\<close>\<close>

text \<open>
  \<open>autothread.h\<close> wraps a \<^verbatim>\<open>std::thread\<close>. The member functions of
  \<^verbatim>\<open>std::thread\<close> that the header calls (\<^verbatim>\<open>joinable\<close>, \<^verbatim>\<open>join\<close>,
  \<^verbatim>\<open>detach\<close>, \<^verbatim>\<open>get_id\<close>, the move constructor and the destructor) belong to the
  C++ standard library; they are written down here as the C++ standard
  describes them ([thread.thread.class]), so that the header's own code can be
  translated call by call.

  A \<^verbatim>\<open>std::thread\<close> object either represents a thread of execution
  (\<open>Some t\<close>: joinable) or does not (\<open>None\<close>: default constructed, moved
  from, joined or detached).
\<close>

text \<open>
  A thread of execution is named by its number in the order in which the
  threads of the process were started, which is never used again, and by the
  id value the system gave it. The standard lets the system give the id value
  of a terminated thread that can no longer be joined to a later thread
  ([thread.thread.id]), so two threads may carry the same id value. The
  system never gives two threads that exist at the same time the same id
  value; nothing below depends on that.
\<close>

type_synonym tid = "nat \<times> nat"

type_synonym thread = "tid option"

text \<open>\<^verbatim>\<open>std::thread::id\<close>: a default constructed id represents no thread.\<close>

datatype thread_id = no_thread | id_of nat

text \<open>\<^verbatim>\<open>std::this_thread::get_id()\<close>, called by the thread \<open>self\<close>.\<close>

definition this_thread_get_id :: "tid \<Rightarrow> thread_id" where
  "this_thread_get_id self = id_of (snd self)"

text \<open>The error conditions of \<^verbatim>\<open>std::system_error\<close> that join and detach report.\<close>

datatype errc = invalid_argument | no_such_process | resource_deadlock_would_occur

text \<open>
  What the rest of the process can observe: the join and detach calls applied
  to threads, in order, and the threads whose completion has been waited for.
  What the system knows and the wrapper cannot see: the threads that are no
  longer valid, because something outside the wrapper has disposed of them
  through their native handle, and the pairs (caller, thread) for which the
  system detects that a join would deadlock.
\<close>

datatype call = join_call tid | detach_call tid

fun target :: "call \<Rightarrow> tid" where
  "target (join_call t) = t"
| "target (detach_call t) = t"

record world =
  calls :: "call list"
  completed :: "tid set"
  invalid :: "tid set"
  deadlocked :: "(tid \<times> tid) set"

text \<open>A function that may end the process through \<^verbatim>\<open>std::terminate\<close>.\<close>

datatype 'a exit = returned 'a | terminated 'a

definition joinable :: "thread \<Rightarrow> bool" where
  "joinable t = (t \<noteq> None)"

definition thread_get_id :: "thread \<Rightarrow> thread_id" where
  "thread_get_id t = (case t of None \<Rightarrow> no_thread | Some i \<Rightarrow> id_of (snd i))"

text \<open>
  \<^verbatim>\<open>thread(thread&& x)\<close>: the new object takes what \<open>x\<close> represented and
  \<open>x\<close> is left representing no thread. The result is the pair (new object,
  \<open>x\<close> afterwards).
\<close>

definition thread_move :: "thread \<Rightarrow> thread \<times> thread" where
  "thread_move x = (x, None)"

text \<open>
  \<^verbatim>\<open>join()\<close>, called by the thread \<open>self\<close> ([thread.thread.member]):
  blocks until the represented thread has completed; afterwards the object
  represents no thread. It throws \<open>invalid_argument\<close> on an object that is
  not joinable, \<open>resource_deadlock_would_occur\<close> when
  \<^verbatim>\<open>get_id() == std::this_thread::get_id()\<close> or a deadlock is detected, and
  \<open>no_such_process\<close> when the thread is not valid. \<open>Inl e\<close> is the
  exception; the object is then unchanged.
\<close>

definition thread_join :: "tid \<Rightarrow> thread \<Rightarrow> world \<Rightarrow> (errc + thread) \<times> world" where
  "thread_join self t w =
     (case t of
        None \<Rightarrow> (Inl invalid_argument, w)
      | Some i \<Rightarrow>
          if thread_get_id t = this_thread_get_id self \<or> (self, i) \<in> deadlocked w
          then (Inl resource_deadlock_would_occur, w\<lparr>calls := calls w @ [join_call i]\<rparr>)
          else if i \<in> invalid w
          then (Inl no_such_process, w\<lparr>calls := calls w @ [join_call i]\<rparr>)
          else (Inr None,
                w\<lparr>calls := calls w @ [join_call i], completed := insert i (completed w)\<rparr>))"

text \<open>
  \<^verbatim>\<open>detach()\<close>: the thread continues on its own, the caller does not wait;
  afterwards the object represents no thread. It throws \<open>invalid_argument\<close>
  on an object that is not joinable and \<open>no_such_process\<close> when the thread
  is not valid.
\<close>

definition thread_detach :: "thread \<Rightarrow> world \<Rightarrow> (errc + thread) \<times> world" where
  "thread_detach t w =
     (case t of
        None \<Rightarrow> (Inl invalid_argument, w)
      | Some i \<Rightarrow>
          if i \<in> invalid w
          then (Inl no_such_process, w\<lparr>calls := calls w @ [detach_call i]\<rparr>)
          else (Inr None, w\<lparr>calls := calls w @ [detach_call i]\<rparr>))"

text \<open>\<^verbatim>\<open>~thread()\<close>: destroying a joinable object calls \<^verbatim>\<open>std::terminate\<close>.\<close>

definition thread_dtor :: "thread \<Rightarrow> world \<Rightarrow> world exit" where
  "thread_dtor t w = (if joinable t then terminated w else returned w)"

section \<open>The two specialisations of \<open>autothread\<close>\<close>

text \<open>
  \<^verbatim>\<open>struct join {}; struct detach {};\<close> select the specialisation. Both
  classes have the single member \<^verbatim>\<open>std::thread thrd\<close>.
\<close>

datatype policy = join | detach

record autothread =
  thrd :: thread

text \<open>
  \<^verbatim>\<open>autothread(std::thread&& t): thrd(std::move(t)) {}\<close> (lines 25 and 39).
  The result is the pair (constructed object, \<open>t\<close> afterwards).
\<close>

definition autothread_ctor :: "thread \<Rightarrow> autothread \<times> thread" where
  "autothread_ctor t = (case thread_move t of (n, t') \<Rightarrow> (\<lparr>thrd = n\<rparr>, t'))"

text \<open>
  \<^verbatim>\<open>autothread(autothread&& other) = default;\<close> (lines 27 and 41): the
  member is move constructed from \<open>other\<close>'s member. The result is the pair
  (constructed object, \<open>other\<close> afterwards).
\<close>

definition autothread_move :: "autothread \<Rightarrow> autothread \<times> autothread" where
  "autothread_move other =
     (case thread_move (thrd other) of (n, t') \<Rightarrow> (\<lparr>thrd = n\<rparr>, other\<lparr>thrd := t'\<rparr>))"

text \<open>
  The destructor bodies, \<^verbatim>\<open>{ if (thrd.joinable()) thrd.join(); }\<close> (line 28)
  and \<^verbatim>\<open>{ if (thrd.joinable()) thrd.detach(); }\<close> (line 42). Neither body has
  a handler, so an exception of the call leaves the body.
\<close>

definition dtor_body_join :: "tid \<Rightarrow> autothread \<Rightarrow> world \<Rightarrow> (errc + autothread) \<times> world" where
  "dtor_body_join self a w =
     (if joinable (thrd a)
      then (case thread_join self (thrd a) w of
              (Inl e, w') \<Rightarrow> (Inl e, w')
            | (Inr t', w') \<Rightarrow> (Inr (a\<lparr>thrd := t'\<rparr>), w'))
      else (Inr a, w))"

definition dtor_body_detach :: "autothread \<Rightarrow> world \<Rightarrow> (errc + autothread) \<times> world" where
  "dtor_body_detach a w =
     (if joinable (thrd a)
      then (case thread_detach (thrd a) w of
              (Inl e, w') \<Rightarrow> (Inl e, w')
            | (Inr t', w') \<Rightarrow> (Inr (a\<lparr>thrd := t'\<rparr>), w'))
      else (Inr a, w))"

fun dtor_body :: "policy \<Rightarrow> tid \<Rightarrow> autothread \<Rightarrow> world \<Rightarrow> (errc + autothread) \<times> world" where
  "dtor_body join self a w = dtor_body_join self a w"
| "dtor_body detach self a w = dtor_body_detach a w"

text \<open>
  The whole destructor. A destructor is \<^verbatim>\<open>noexcept\<close> unless declared
  otherwise, so an exception that leaves the body calls \<^verbatim>\<open>std::terminate\<close>;
  after the body the member \<open>thrd\<close> is destroyed.
\<close>

definition autothread_dtor :: "policy \<Rightarrow> tid \<Rightarrow> autothread \<Rightarrow> world \<Rightarrow> world exit" where
  "autothread_dtor p self a w =
     (case dtor_body p self a w of
        (Inl e, w') \<Rightarrow> terminated w'
      | (Inr a', w') \<Rightarrow> thread_dtor (thrd a') w')"

text \<open>
  \<^verbatim>\<open>id get_id() { return thrd.get_id(); }\<close> (lines 31 and 45). The function
  is not \<^verbatim>\<open>const\<close>, so the object afterwards is part of the result.
\<close>

definition get_id :: "autothread \<Rightarrow> thread_id \<times> autothread" where
  "get_id a = (thread_get_id (thrd a), a)"

section \<open>What the class declarations allow\<close>

text \<open>
  The members that the class bodies declare, and how: both specialisations
  declare the constructor from a thread (lines 25, 39), a deleted copy
  constructor (lines 26, 40), a defaulted move constructor (lines 27, 41), the
  destructor (lines 28, 42) and \<open>get_id\<close> (lines 31, 45). Neither
  declares an assignment operator.
\<close>

datatype member =
  ctor_from_thread | copy_ctor | move_ctor | destructor | copy_assign | move_assign
  | get_id_member

datatype decl = provided | defaulted | deleted

fun declared :: "policy \<Rightarrow> member \<Rightarrow> decl option" where
  "declared p ctor_from_thread = Some provided"
| "declared p copy_ctor = Some deleted"
| "declared p move_ctor = Some defaulted"
| "declared p destructor = Some provided"
| "declared p copy_assign = None"
| "declared p move_assign = None"
| "declared p get_id_member = Some provided"

text \<open>
  The special members a class has, given the ones it declares
  ([class.copy.ctor], [class.copy.assign], [class.dtor]): a copy operation
  that is not declared is implicitly declared, and is deleted when the class
  declares a move operation; a move operation that is not declared is
  implicitly declared only when the class declares no copy operation, no
  other move operation and no destructor; otherwise the class has none.
\<close>

fun special_member :: "(member \<Rightarrow> decl option) \<Rightarrow> member \<Rightarrow> decl option" where
  "special_member d copy_ctor =
     (case d copy_ctor of
        Some x \<Rightarrow> Some x
      | None \<Rightarrow> Some (if d move_ctor \<noteq> None \<or> d move_assign \<noteq> None then deleted else defaulted))"
| "special_member d copy_assign =
     (case d copy_assign of
        Some x \<Rightarrow> Some x
      | None \<Rightarrow> Some (if d move_ctor \<noteq> None \<or> d move_assign \<noteq> None then deleted else defaulted))"
| "special_member d move_ctor =
     (case d move_ctor of
        Some x \<Rightarrow> Some x
      | None \<Rightarrow>
          if d copy_ctor = None \<and> d copy_assign = None \<and> d move_assign = None \<and> d destructor = None
          then Some defaulted else None)"
| "special_member d move_assign =
     (case d move_assign of
        Some x \<Rightarrow> Some x
      | None \<Rightarrow>
          if d copy_ctor = None \<and> d copy_assign = None \<and> d move_ctor = None \<and> d destructor = None
          then Some defaulted else None)"
| "special_member d destructor =
     (case d destructor of Some x \<Rightarrow> Some x | None \<Rightarrow> Some defaulted)"
| "special_member d m = d m"

text \<open>
  Overload resolution between a move operation and the copy operation for an
  rvalue argument: the move operation when the class has one, else the copy
  operation, whose parameter \<^verbatim>\<open>const autothread&\<close> binds an rvalue too. An
  lvalue argument selects the copy operation. The selected function must
  exist and must not be deleted.
\<close>

definition for_rvalue :: "policy \<Rightarrow> member \<Rightarrow> member \<Rightarrow> member" where
  "for_rvalue p mv cp = (if special_member (declared p) mv \<noteq> None then mv else cp)"

definition callable :: "policy \<Rightarrow> member \<Rightarrow> bool" where
  "callable p m =
     (case special_member (declared p) m of None \<Rightarrow> False | Some x \<Rightarrow> x \<noteq> deleted)"

section \<open>Programs that use the wrapper\<close>

text \<open>
  Objects live at addresses; a declaration gets an address of its own, and
  an object whose lifetime has ended stays \<open>destroyed\<close>. A statement that
  moves from an object changes the object it moves from, so the objects are
  kept in a store.
\<close>

type_synonym addr = nat

datatype object = a_thread thread | an_autothread policy autothread | destroyed

fun handle_of :: "object \<Rightarrow> thread" where
  "handle_of (a_thread t) = t"
| "handle_of (an_autothread p a) = thrd a"
| "handle_of destroyed = None"

text \<open>
  The statements of a program. \<open>Spawn s n\<close> starts a thread to which the
  system gives the id value \<open>n\<close>. The statements on autothreads name the
  specialisation \<open>P\<close> they are written for.
\<close>

datatype stmt =
    Spawn addr nat                  \<comment> \<open>\<^verbatim>\<open>std::thread s(work);\<close>\<close>
  | Declare addr                    \<comment> \<open>\<^verbatim>\<open>std::thread s;\<close>\<close>
  | Construct policy addr addr      \<comment> \<open>\<^verbatim>\<open>autothread<P> a(std::move(s));\<close>\<close>
  | MoveConstruct policy addr addr  \<comment> \<open>\<^verbatim>\<open>autothread<P> a(std::move(b));\<close>\<close>
  | CopyConstruct policy addr addr  \<comment> \<open>\<^verbatim>\<open>autothread<P> a(b);\<close>\<close>
  | MoveAssign policy addr addr     \<comment> \<open>\<^verbatim>\<open>a = std::move(b);\<close>\<close>
  | CopyAssign policy addr addr     \<comment> \<open>\<^verbatim>\<open>a = b;\<close>\<close>
  | GetId addr                      \<comment> \<open>\<^verbatim>\<open>a.get_id();\<close>\<close>
  | Destroy addr                    \<comment> \<open>the lifetime of the object ends\<close>

text \<open>
  What the compiler knows of an address at a point of the program: nothing
  (\<open>None\<close>), the class of the object declared there, or that the object has
  gone out of scope.
\<close>

datatype cls = thread_cls | autothread_cls policy | out_of_scope

type_synonym scope = "addr \<Rightarrow> cls option"

text \<open>
  Whether the compiler accepts a statement in a scope: a declaration needs an
  address that is not declared yet, every object that is named must be in
  scope and of the class the statement needs, and the member function that
  the statement selects must be callable.
\<close>

fun compiles :: "scope \<Rightarrow> stmt \<Rightarrow> bool" where
  "compiles \<Gamma> (Spawn s n) = (\<Gamma> s = None)"
| "compiles \<Gamma> (Declare s) = (\<Gamma> s = None)"
| "compiles \<Gamma> (Construct p a s) =
     (\<Gamma> a = None \<and> \<Gamma> s = Some thread_cls \<and> callable p ctor_from_thread)"
| "compiles \<Gamma> (MoveConstruct p a b) =
     (\<Gamma> a = None \<and> \<Gamma> b = Some (autothread_cls p) \<and>
      callable p (for_rvalue p move_ctor copy_ctor))"
| "compiles \<Gamma> (CopyConstruct p a b) =
     (\<Gamma> a = None \<and> \<Gamma> b = Some (autothread_cls p) \<and> callable p copy_ctor)"
| "compiles \<Gamma> (MoveAssign p a b) =
     (\<Gamma> a = Some (autothread_cls p) \<and> \<Gamma> b = Some (autothread_cls p) \<and>
      callable p (for_rvalue p move_assign copy_assign))"
| "compiles \<Gamma> (CopyAssign p a b) =
     (\<Gamma> a = Some (autothread_cls p) \<and> \<Gamma> b = Some (autothread_cls p) \<and>
      callable p copy_assign)"
| "compiles \<Gamma> (GetId a) =
     (case \<Gamma> a of Some (autothread_cls p) \<Rightarrow> callable p get_id_member | _ \<Rightarrow> False)"
| "compiles \<Gamma> (Destroy a) =
     (case \<Gamma> a of
        Some thread_cls \<Rightarrow> True
      | Some (autothread_cls p) \<Rightarrow> callable p destructor
      | _ \<Rightarrow> False)"

text \<open>The scope after a statement.\<close>

fun scope_after :: "stmt \<Rightarrow> scope \<Rightarrow> scope" where
  "scope_after (Spawn s n) \<Gamma> = \<Gamma>(s \<mapsto> thread_cls)"
| "scope_after (Declare s) \<Gamma> = \<Gamma>(s \<mapsto> thread_cls)"
| "scope_after (Construct p a s) \<Gamma> = \<Gamma>(a \<mapsto> autothread_cls p)"
| "scope_after (MoveConstruct p a b) \<Gamma> = \<Gamma>(a \<mapsto> autothread_cls p)"
| "scope_after (CopyConstruct p a b) \<Gamma> = \<Gamma>(a \<mapsto> autothread_cls p)"
| "scope_after (Destroy a) \<Gamma> = \<Gamma>(a \<mapsto> out_of_scope)"
| "scope_after st \<Gamma> = \<Gamma>"

fun compiles_all :: "scope \<Rightarrow> stmt list \<Rightarrow> bool" where
  "compiles_all \<Gamma> [] = True"
| "compiles_all \<Gamma> (st # sts) = (compiles \<Gamma> st \<and> compiles_all (scope_after st \<Gamma>) sts)"

text \<open>
  How an execution can stop early: the compiler rejects the program, a
  statement names no live object of the right class, or \<^verbatim>\<open>std::terminate\<close> is
  called. A fault keeps the world as it was when the execution stopped.
\<close>

datatype fault_kind = ill_formed | no_such_object | std_terminate

type_synonym fault = "fault_kind \<times> world"

text \<open>
  The store, the number of the next thread to be started, and the world.
\<close>

record machine =
  heap :: "addr \<Rightarrow> object option"
  next_tid :: nat
  env :: world

text \<open>At the start no object exists; the main thread is thread number 0.\<close>

definition init :: machine where
  "init = \<lparr>heap = Map.empty, next_tid = 1,
            env = \<lparr>calls = [], completed = {}, invalid = {}, deadlocked = {}\<rparr>\<rparr>"

text \<open>The scope in which a program continues from a store.\<close>

fun class_of :: "object \<Rightarrow> cls" where
  "class_of (a_thread t) = thread_cls"
| "class_of (an_autothread p a) = autothread_cls p"
| "class_of destroyed = out_of_scope"

definition scope_of :: "machine \<Rightarrow> scope" where
  "scope_of m = (\<lambda>x. case heap m x of None \<Rightarrow> None | Some ob \<Rightarrow> Some (class_of ob))"

text \<open>
  One statement, executed by the thread \<open>self\<close>. A statement on an address
  that does not hold a live object of the right class is \<open>no_such_object\<close>;
  a program that compiles never comes to that (\<open>run_compiled\<close> below).
  The header defines no assignment operator, so there is nothing an
  assignment could execute.
\<close>

fun exec :: "tid \<Rightarrow> stmt \<Rightarrow> machine \<Rightarrow> fault + machine" where
  "exec self (Spawn s n) m =
     (case heap m s of
        Some ob \<Rightarrow> Inl (no_such_object, env m)
      | None \<Rightarrow>
          Inr (m\<lparr>heap := (heap m)(s \<mapsto> a_thread (Some (next_tid m, n))),
                 next_tid := Suc (next_tid m)\<rparr>))"
| "exec self (Declare s) m =
     (case heap m s of
        Some ob \<Rightarrow> Inl (no_such_object, env m)
      | None \<Rightarrow> Inr (m\<lparr>heap := (heap m)(s \<mapsto> a_thread None)\<rparr>))"
| "exec self (Construct p a s) m =
     (case (heap m a, heap m s) of
        (None, Some (a_thread t)) \<Rightarrow>
          (case autothread_ctor t of
             (n, t') \<Rightarrow> Inr (m\<lparr>heap := (heap m)(s \<mapsto> a_thread t', a \<mapsto> an_autothread p n)\<rparr>))
      | _ \<Rightarrow> Inl (no_such_object, env m))"
| "exec self (MoveConstruct p a b) m =
     (case (heap m a, heap m b) of
        (None, Some (an_autothread q other)) \<Rightarrow>
          if q = p
          then (case autothread_move other of
                  (n, other') \<Rightarrow>
                    Inr (m\<lparr>heap := (heap m)(b \<mapsto> an_autothread p other', a \<mapsto> an_autothread p n)\<rparr>))
          else Inl (no_such_object, env m)
      | _ \<Rightarrow> Inl (no_such_object, env m))"
| "exec self (CopyConstruct p a b) m = Inl (ill_formed, env m)"
| "exec self (MoveAssign p a b) m = Inl (ill_formed, env m)"
| "exec self (CopyAssign p a b) m = Inl (ill_formed, env m)"
| "exec self (GetId a) m =
     (case heap m a of
        Some (an_autothread p x) \<Rightarrow>
          (case get_id x of (i, x') \<Rightarrow> Inr (m\<lparr>heap := (heap m)(a \<mapsto> an_autothread p x')\<rparr>))
      | _ \<Rightarrow> Inl (no_such_object, env m))"
| "exec self (Destroy a) m =
     (case heap m a of
        Some (a_thread t) \<Rightarrow>
          (case thread_dtor t (env m) of
             returned w \<Rightarrow> Inr (m\<lparr>heap := (heap m)(a \<mapsto> destroyed), env := w\<rparr>)
           | terminated w \<Rightarrow> Inl (std_terminate, w))
      | Some (an_autothread p x) \<Rightarrow>
          (case autothread_dtor p self x (env m) of
             returned w \<Rightarrow> Inr (m\<lparr>heap := (heap m)(a \<mapsto> destroyed), env := w\<rparr>)
           | terminated w \<Rightarrow> Inl (std_terminate, w))
      | _ \<Rightarrow> Inl (no_such_object, env m))"

fun run :: "tid \<Rightarrow> stmt list \<Rightarrow> machine \<Rightarrow> fault + machine" where
  "run self [] m = Inr m"
| "run self (st # sts) m =
     (case exec self st m of Inl f \<Rightarrow> Inl f | Inr m' \<Rightarrow> run self sts m')"

text \<open>
  A program is compiled as a whole before any of it runs: one statement that
  the compiler rejects and nothing is executed.
\<close>

definition program :: "tid \<Rightarrow> stmt list \<Rightarrow> machine \<Rightarrow> fault + machine" where
  "program self sts m =
     (if compiles_all (scope_of m) sts then run self sts m else Inl (ill_formed, env m))"

text \<open>The join and detach calls made by the end of an execution.\<close>

fun calls_of :: "fault + machine \<Rightarrow> call list" where
  "calls_of (Inr m') = calls (env m')"
| "calls_of (Inl (k, w)) = calls w"

text \<open>The call that a policy applies to a thread.\<close>

fun disposal :: "policy \<Rightarrow> tid \<Rightarrow> call" where
  "disposal join t = join_call t"
| "disposal detach t = detach_call t"

text \<open>The world at the end of a destructor call, however it ended.\<close>

fun world_of :: "world exit \<Rightarrow> world" where
  "world_of (returned w) = w"
| "world_of (terminated w) = w"

text \<open>The object at \<open>x\<close> holds the handle of thread \<open>t\<close>.\<close>

definition owns :: "machine \<Rightarrow> addr \<Rightarrow> tid \<Rightarrow> bool" where
  "owns m x t = (case heap m x of None \<Rightarrow> False | Some ob \<Rightarrow> handle_of ob = Some t)"

text \<open>
  The invariant of every execution: a thread is held by at most one object,
  only threads that were started are held or disposed of, a thread that is
  still held has not been disposed of, and no thread is disposed of twice.
\<close>

definition single_owner :: "machine \<Rightarrow> bool" where
  "single_owner m \<longleftrightarrow>
     (\<forall>x y t. owns m x t \<and> owns m y t \<longrightarrow> x = y) \<and>
     (\<forall>x t. owns m x t \<longrightarrow> fst t < next_tid m \<and> t \<notin> target ` set (calls (env m))) \<and>
     distinct (map target (calls (env m))) \<and>
     (\<forall>c \<in> set (calls (env m)). fst (target c) < next_tid m)"

section \<open>The members, evaluated\<close>

lemma autothread_ctor_eq: "autothread_ctor t = (\<lparr>thrd = t\<rparr>, None)"
  by (simp add: autothread_ctor_def thread_move_def)

lemma autothread_move_eq: "autothread_move other = (\<lparr>thrd = thrd other\<rparr>, other\<lparr>thrd := None\<rparr>)"
  by (simp add: autothread_move_def thread_move_def)

lemma autothread_dtor_empty: "thrd a = None \<Longrightarrow> autothread_dtor p self a w = returned w"
  by (cases p) (simp_all add: autothread_dtor_def dtor_body_join_def dtor_body_detach_def
      joinable_def thread_dtor_def)

lemma autothread_dtor_join:
  "thrd a = Some t \<Longrightarrow>
   autothread_dtor join self a w =
     (if snd t = snd self \<or> (self, t) \<in> deadlocked w \<or> t \<in> invalid w
      then terminated (w\<lparr>calls := calls w @ [join_call t]\<rparr>)
      else returned (w\<lparr>calls := calls w @ [join_call t], completed := insert t (completed w)\<rparr>))"
  by (simp add: autothread_dtor_def dtor_body_join_def joinable_def thread_join_def thread_dtor_def
      thread_get_id_def this_thread_get_id_def)

lemma autothread_dtor_detach:
  "thrd a = Some t \<Longrightarrow>
   autothread_dtor detach self a w =
     (if t \<in> invalid w then terminated (w\<lparr>calls := calls w @ [detach_call t]\<rparr>)
      else returned (w\<lparr>calls := calls w @ [detach_call t]\<rparr>))"
  by (simp add: autothread_dtor_def dtor_body_detach_def joinable_def thread_detach_def thread_dtor_def)

lemma autothread_dtor_calls:
  "calls (world_of (autothread_dtor p self a w)) =
     (case thrd a of None \<Rightarrow> calls w | Some t \<Rightarrow> calls w @ [disposal p t])"
  by (cases p; cases "thrd a")
     (simp_all add: autothread_dtor_empty autothread_dtor_join autothread_dtor_detach)

lemma single_owner_init: "single_owner init"
  by (simp add: single_owner_def init_def owns_def)


text \<open>The equations that evaluate a program on a concrete store.\<close>

lemmas eval_simps = program_def init_def scope_of_def callable_def for_rvalue_def
  autothread_ctor_eq autothread_move_eq get_id_def autothread_dtor_def dtor_body_join_def
  dtor_body_detach_def thread_join_def thread_detach_def thread_dtor_def joinable_def
  thread_get_id_def this_thread_get_id_def

section \<open>Exclusive ownership is an invariant\<close>

lemma owns_simps:
  "owns (m\<lparr>heap := h\<rparr>) x t = (case h x of None \<Rightarrow> False | Some ob \<Rightarrow> handle_of ob = Some t)"
  "owns (m\<lparr>next_tid := n\<rparr>) x t = owns m x t"
  "owns (m\<lparr>env := w\<rparr>) x t = owns m x t"
  by (simp_all add: owns_def)

lemma single_ownerI:
  assumes "\<And>x y t. owns m x t \<Longrightarrow> owns m y t \<Longrightarrow> x = y"
    and "\<And>x t. owns m x t \<Longrightarrow> fst t < next_tid m"
    and "\<And>x t. owns m x t \<Longrightarrow> t \<notin> target ` set (calls (env m))"
    and "distinct (map target (calls (env m)))"
    and "\<And>c. c \<in> set (calls (env m)) \<Longrightarrow> fst (target c) < next_tid m"
  shows "single_owner m"
  unfolding single_owner_def using assms by blast

lemma single_ownerD:
  assumes "single_owner m"
  shows "owns m x t \<Longrightarrow> owns m y t \<Longrightarrow> x = y"
    and "owns m x t \<Longrightarrow> fst t < next_tid m"
    and "owns m x t \<Longrightarrow> t \<notin> target ` set (calls (env m))"
    and "distinct (map target (calls (env m)))"
    and "c \<in> set (calls (env m)) \<Longrightarrow> fst (target c) < next_tid m"
  using assms unfolding single_owner_def by blast+

text \<open>Ownership passes from \<open>b\<close> to the fresh address \<open>a\<close>.\<close>

lemma single_owner_transfer:
  assumes inv: "single_owner m"
    and fresh: "heap m a = None"
    and nt: "next_tid m' = next_tid m" and ev: "env m' = env m"
    and ow: "\<And>x t. owns m' x t = (if x = a then owns m b t else if x = b then False else owns m x t)"
  shows "single_owner m'"
proof (rule single_ownerI)
  have na: "\<not> owns m a t" for t using fresh by (simp add: owns_def)
  fix x y t assume "owns m' x t" "owns m' y t"
  then show "x = y"
    using single_ownerD(1)[OF inv, of _ t] na by (simp add: ow split: if_splits) 
next
  fix x t assume "owns m' x t"
  then obtain z where "owns m z t" by (auto simp: ow split: if_splits)
  then show "fst t < next_tid m'" using single_ownerD(2)[OF inv] nt by simp
next
  fix x t assume "owns m' x t"
  then obtain z where "owns m z t" by (auto simp: ow split: if_splits)
  then show "t \<notin> target ` set (calls (env m'))" using single_ownerD(3)[OF inv] ev by simp
next
  show "distinct (map target (calls (env m')))" using single_ownerD(4)[OF inv] ev by simp
next
  fix c assume "c \<in> set (calls (env m'))"
  then show "fst (target c) < next_tid m'" using single_ownerD(5)[OF inv] ev nt by simp
qed


text \<open>Objects only lose handles; nothing else changes.\<close>

lemma single_owner_shrink:
  assumes inv: "single_owner m"
    and nt: "next_tid m' = next_tid m" and ev: "env m' = env m"
    and ow: "\<And>x t. owns m' x t \<Longrightarrow> owns m x t"
  shows "single_owner m'"
proof (rule single_ownerI)
  fix x y t assume "owns m' x t" "owns m' y t"
  then show "x = y" using single_ownerD(1)[OF inv] ow by blast
next
  fix x t assume "owns m' x t"
  then show "fst t < next_tid m'" using single_ownerD(2)[OF inv] ow nt by fastforce
next
  fix x t assume "owns m' x t"
  then show "t \<notin> target ` set (calls (env m'))" using single_ownerD(3)[OF inv] ow ev by fastforce
next
  show "distinct (map target (calls (env m')))" using single_ownerD(4)[OF inv] ev by simp
next
  fix c assume "c \<in> set (calls (env m'))"
  then show "fst (target c) < next_tid m'" using single_ownerD(5)[OF inv] ev nt by simp
qed

text \<open>A new thread is started and its handle stored at a fresh address.\<close>

lemma single_owner_spawn:
  assumes inv: "single_owner m" and fresh: "heap m s = None"
  shows "single_owner (m\<lparr>heap := (heap m)(s \<mapsto> a_thread (Some (next_tid m, n))),
                          next_tid := Suc (next_tid m)\<rparr>)"
    (is "single_owner ?m'")
proof (rule single_ownerI)
  have ow: "owns ?m' x t = (if x = s then t = (next_tid m, n) else owns m x t)" for x t
    by (auto simp: owns_def)
  have lt: "owns m x t \<Longrightarrow> fst t < next_tid m" for x t
    using single_ownerD(2)[OF inv] by blast
  {
    fix x y t assume "owns ?m' x t" "owns ?m' y t"
    then show "x = y"
      using single_ownerD(1)[OF inv, of x t y] lt[of x t] lt[of y t]
      by (auto simp: ow split: if_splits)
  next
    fix x t assume "owns ?m' x t"
    then show "fst t < next_tid ?m'" using lt[of x t] by (auto simp: ow split: if_splits)
  next
    fix x t assume o: "owns ?m' x t"
    show "t \<notin> target ` set (calls (env ?m'))"
    proof (cases "x = s")
      case True
      with o have "fst t = next_tid m" by (simp add: ow)
      then show ?thesis using single_ownerD(5)[OF inv] by fastforce
    next
      case False
      with o have "owns m x t" by (simp add: ow)
      then show ?thesis using single_ownerD(3)[OF inv] by simp
    qed
  next
    show "distinct (map target (calls (env ?m')))" using single_ownerD(4)[OF inv] by simp
  next
    fix c assume "c \<in> set (calls (env ?m'))"
    then show "fst (target c) < next_tid ?m'" using single_ownerD(5)[OF inv, of c] by simp
  }
qed

text \<open>The owner at \<open>a\<close> is destroyed and the call \<open>c\<close> is applied to its thread.\<close>

lemma single_owner_dispose:
  assumes inv: "single_owner m" and own: "owns m a t" and tc: "target c = t"
    and cw: "calls w = calls (env m) @ [c]"
  shows "single_owner (m\<lparr>heap := (heap m)(a \<mapsto> destroyed), env := w\<rparr>)"
    (is "single_owner ?m'")
proof (rule single_ownerI)
  have ow: "owns ?m' x u = (x \<noteq> a \<and> owns m x u)" for x u
    by (auto simp: owns_def)
  have cs: "calls (env ?m') = calls (env m) @ [c]" using cw by simp
  have ev: "env ?m' = w" by simp
  {
    fix x y u assume "owns ?m' x u" "owns ?m' y u"
    then show "x = y" using single_ownerD(1)[OF inv, of x u y] by (simp add: ow)
  next
    fix x u assume "owns ?m' x u"
    then show "fst u < next_tid ?m'" using single_ownerD(2)[OF inv, of x u] by (simp add: ow)
  next
    fix x u assume o: "owns ?m' x u"
    then have xa: "x \<noteq> a" and ou: "owns m x u" by (simp_all add: ow)
    have "u \<noteq> t" using single_ownerD(1)[OF inv, of x u a] ou own xa by blast
    moreover have "u \<notin> target ` set (calls (env m))" using single_ownerD(3)[OF inv ou] .
    ultimately show "u \<notin> target ` set (calls (env ?m'))"
      unfolding ev cw using tc by auto
  next
    show "distinct (map target (calls (env ?m')))"
      unfolding ev cw using single_ownerD(4)[OF inv] single_ownerD(3)[OF inv own] tc by simp
  next
    fix d assume "d \<in> set (calls (env ?m'))"
    then have "d \<in> set (calls (env m)) \<or> d = c" unfolding ev cw by auto
    then show "fst (target d) < next_tid ?m'"
      using single_ownerD(5)[OF inv, of d] single_ownerD(2)[OF inv own] tc by auto
  }
qed



lemma exec_single_owner:
  assumes inv: "single_owner m" and ex: "exec self st m = Inr m'"
  shows "single_owner m'"
proof (cases st)
  case (Spawn s n)
  with ex have "heap m s = None"
    and "m' = m\<lparr>heap := (heap m)(s \<mapsto> a_thread (Some (next_tid m, n))),
                  next_tid := Suc (next_tid m)\<rparr>"
    by (auto split: option.splits)
  then show ?thesis using single_owner_spawn[OF inv] by simp
next
  case (Declare s)
  with ex have "heap m s = None" and m': "m' = m\<lparr>heap := (heap m)(s \<mapsto> a_thread None)\<rparr>"
    by (auto split: option.splits)
  show ?thesis
    by (rule single_owner_shrink[OF inv]) (auto simp: m' owns_def split: if_splits)
next
  case (Construct p a s)
  with ex obtain t where fresh: "heap m a = None" and hs: "heap m s = Some (a_thread t)"
    and m': "m' = m\<lparr>heap := (heap m)(s \<mapsto> a_thread None, a \<mapsto> an_autothread p \<lparr>thrd = t\<rparr>)\<rparr>"
    by (auto simp: autothread_ctor_eq split: option.splits object.splits)
  show ?thesis
    by (rule single_owner_transfer[OF inv fresh, where b = s])
       (auto simp: m' owns_def hs)
next
  case (MoveConstruct p a b)
  with ex obtain other where fresh: "heap m a = None"
    and hb: "heap m b = Some (an_autothread p other)"
    and m': "m' = m\<lparr>heap := (heap m)(b \<mapsto> an_autothread p (other\<lparr>thrd := None\<rparr>),
                                      a \<mapsto> an_autothread p \<lparr>thrd = thrd other\<rparr>)\<rparr>"
    by (auto simp: autothread_move_eq split: option.splits object.splits if_splits)
  show ?thesis
    by (rule single_owner_transfer[OF inv fresh, where b = b])
       (auto simp: m' owns_def hb)
next
  case (GetId a)
  with ex obtain p x where "heap m a = Some (an_autothread p x)"
    and m': "m' = m\<lparr>heap := (heap m)(a \<mapsto> an_autothread p x)\<rparr>"
    by (auto simp: get_id_def split: option.splits object.splits)
  show ?thesis
    by (rule single_owner_shrink[OF inv]) (auto simp: m' owns_def \<open>heap m a = _\<close> split: if_splits)
next
  case (Destroy a)
  show ?thesis
  proof (cases "heap m a")
    case None
    with ex Destroy show ?thesis by simp
  next
    case (Some ob)
    show ?thesis
    proof (cases ob)
      case (a_thread t)
      with ex Destroy Some have m': "m' = m\<lparr>heap := (heap m)(a \<mapsto> destroyed), env := env m\<rparr>"
        by (auto simp: thread_dtor_def split: if_splits)
      show ?thesis
        by (rule single_owner_shrink[OF inv]) (auto simp: m' owns_def split: if_splits)
    next
      case (an_autothread p x)
      show ?thesis
      proof (cases "thrd x")
        case None
        with ex Destroy Some an_autothread
        have m': "m' = m\<lparr>heap := (heap m)(a \<mapsto> destroyed), env := env m\<rparr>"
          by (auto simp: autothread_dtor_empty)
        show ?thesis
          by (rule single_owner_shrink[OF inv]) (auto simp: m' owns_def split: if_splits)
      next
        case (Some t)
        have own: "owns m a t" using \<open>heap m a = Some ob\<close> an_autothread Some by (simp add: owns_def)
        from ex Destroy \<open>heap m a = Some ob\<close> an_autothread Some
        obtain w where m': "m' = m\<lparr>heap := (heap m)(a \<mapsto> destroyed), env := w\<rparr>"
          and cw: "calls w = calls (env m) @ [disposal p t]"
          by (cases p) (auto simp: autothread_dtor_join autothread_dtor_detach split: if_splits)
        show ?thesis unfolding m'
          by (rule single_owner_dispose[OF inv own _ cw]) (cases p; simp)
      qed
    next
      case destroyed
      with ex Destroy Some show ?thesis by simp
    qed
  qed
qed (use ex in simp_all)

lemma autothread_dtor_terminated:
  assumes "autothread_dtor p self x w0 = terminated w"
  shows "\<exists>t. thrd x = Some t \<and> w = w0\<lparr>calls := calls w0 @ [disposal p t]\<rparr>"
proof (cases "thrd x")
  case None
  with assms show ?thesis by (simp add: autothread_dtor_empty)
next
  case (Some t)
  with assms show ?thesis
    by (cases p) (auto simp: autothread_dtor_join autothread_dtor_detach split: if_splits)
qed

lemma exec_fault_world:
  assumes "exec self st m = Inl (k, w)"
  shows "w = env m \<or>
         (\<exists>a p x t. heap m a = Some (an_autothread p x) \<and> thrd x = Some t \<and>
                     w = (env m)\<lparr>calls := calls (env m) @ [disposal p t]\<rparr>)"
proof (cases st)
  case (Destroy a)
  show ?thesis
  proof (cases "heap m a")
    case None
    with assms Destroy show ?thesis by simp
  next
    case (Some ob)
    show ?thesis
    proof (cases ob)
      case (a_thread t)
      with assms Destroy Some show ?thesis by (auto simp: thread_dtor_def split: if_splits)
    next
      case (an_autothread p x)
      with assms Destroy Some have "autothread_dtor p self x (env m) = terminated w"
        by (auto split: exit.splits)
      from autothread_dtor_terminated[OF this] Some an_autothread show ?thesis by blast
    next
      case destroyed
      with assms Destroy Some show ?thesis by simp
    qed
  qed
qed (use assms in \<open>auto simp: autothread_ctor_eq autothread_move_eq get_id_def
        split: option.splits object.splits if_splits\<close>)

lemma exec_fault_distinct:
  assumes inv: "single_owner m" and ex: "exec self st m = Inl (k, w)"
  shows "distinct (map target (calls w))"
  using exec_fault_world[OF ex]
proof
  assume "w = env m"
  then show ?thesis using single_ownerD(4)[OF inv] by simp
next
  assume "\<exists>a p x t. heap m a = Some (an_autothread p x) \<and> thrd x = Some t \<and>
                     w = (env m)\<lparr>calls := calls (env m) @ [disposal p t]\<rparr>"
  then obtain a p x t where h: "heap m a = Some (an_autothread p x)" and tx: "thrd x = Some t"
    and w: "w = (env m)\<lparr>calls := calls (env m) @ [disposal p t]\<rparr>" by blast
  have "owns m a t" using h tx by (simp add: owns_def)
  moreover have "target (disposal p t) = t" by (cases p) simp_all
  ultimately show ?thesis using single_ownerD(3,4)[OF inv] by (simp add: w)
qed

lemma run_single_owner:
  "single_owner m \<Longrightarrow> run self sts m = Inr m' \<Longrightarrow> single_owner m'"
proof (induction sts arbitrary: m)
  case Nil
  then show ?case by simp
next
  case (Cons st sts)
  then show ?case by (auto split: sum.splits dest: exec_single_owner)
qed

lemma run_fault_distinct:
  "single_owner m \<Longrightarrow> run self sts m = Inl (k, w) \<Longrightarrow> distinct (map target (calls w))"
proof (induction sts arbitrary: m)
  case Nil
  then show ?case by simp
next
  case (Cons st sts)
  show ?case
  proof (cases "exec self st m")
    case (Inl f)
    with Cons.prems show ?thesis by (auto dest: exec_fault_distinct)
  next
    case (Inr m1)
    with Cons.prems have "run self sts m1 = Inl (k, w)" by simp
    moreover have "single_owner m1" using exec_single_owner[OF Cons.prems(1) Inr] .
    ultimately show ?thesis by (rule Cons.IH[rotated])
  qed
qed


section \<open>Whole programs\<close>

lemma exec_Destroy_calls:
  "heap m a = Some (an_autothread p x) \<Longrightarrow>
   calls_of (exec self (Destroy a) m) = calls (world_of (autothread_dtor p self x (env m)))"
  by (cases "autothread_dtor p self x (env m)") simp_all

lemma compiles_all_member:
  "compiles_all \<Gamma> sts \<Longrightarrow> st \<in> set sts \<Longrightarrow> \<exists>\<Gamma>'. compiles \<Gamma>' st"
  by (induction sts arbitrary: \<Gamma>) auto

lemma program_rejects:
  assumes "st \<in> set sts" and "\<And>\<Gamma>. \<not> compiles \<Gamma> st"
  shows "program self sts m = Inl (ill_formed, env m)"
  using compiles_all_member[OF _ assms(1)] assms(2) by (auto simp: program_def)

lemma program_single_owner:
  "program self sts init = Inr m \<Longrightarrow> single_owner m"
  using run_single_owner[OF single_owner_init] by (auto simp: program_def split: if_splits)

lemma program_distinct:
  "distinct (map target (calls_of (program self sts init)))"
proof (cases "program self sts init")
  case (Inr m)
  then show ?thesis using single_ownerD(4)[OF program_single_owner[OF Inr]] by simp
next
  case (Inl f)
  obtain k w where f: "f = (k, w)" by (cases f)
  show ?thesis
  proof (cases "compiles_all (scope_of init) sts")
    case True
    with Inl f have "run self sts init = Inl (k, w)" by (simp add: program_def)
    from run_fault_distinct[OF single_owner_init this] Inl f show ?thesis by simp
  next
    case False
    with Inl f show ?thesis by (auto simp: program_def init_def)
  qed
qed

section \<open>A program that compiles names no missing object\<close>

lemma autothread_dtor_exit:
  "(\<exists>w'. autothread_dtor p self x w = returned w') \<or> (\<exists>w'. autothread_dtor p self x w = terminated w')"
  by (cases "autothread_dtor p self x w") auto

lemma scope_of_update:
  "scope_of (m\<lparr>heap := (heap m)(a \<mapsto> ob)\<rparr>) = (scope_of m)(a \<mapsto> class_of ob)"
  "scope_of (m\<lparr>heap := (heap m)(a \<mapsto> ob), env := w\<rparr>) = (scope_of m)(a \<mapsto> class_of ob)"
  "scope_of (m\<lparr>heap := (heap m)(a \<mapsto> ob), next_tid := k\<rparr>) = (scope_of m)(a \<mapsto> class_of ob)"
  "scope_of (m\<lparr>heap := (heap m)(b \<mapsto> ob', a \<mapsto> ob)\<rparr>) =
     (scope_of m)(b \<mapsto> class_of ob', a \<mapsto> class_of ob)"
  by (auto simp: scope_of_def fun_eq_iff)

lemma scope_of_same:
  "scope_of m b = Some c \<Longrightarrow> (scope_of m)(b \<mapsto> c) = scope_of m"
  by (auto simp: fun_eq_iff)

lemma scope_of_class:
  "scope_of m a = None \<longleftrightarrow> heap m a = None"
  "scope_of m a = Some thread_cls \<longleftrightarrow> (\<exists>t. heap m a = Some (a_thread t))"
  "scope_of m a = Some (autothread_cls p) \<longleftrightarrow> (\<exists>x. heap m a = Some (an_autothread p x))"
  by (auto simp: scope_of_def split: option.splits object.splits elim: class_of.elims)

lemma exec_compiled:
  assumes "compiles (scope_of m) st"
  shows "(\<exists>m'. exec self st m = Inr m' \<and> scope_of m' = scope_after st (scope_of m)) \<or>
         (\<exists>w. exec self st m = Inl (std_terminate, w))"
proof (cases st)
  case (Spawn s n)
  with assms have "heap m s = None" by (simp add: scope_of_class)
  then show ?thesis using Spawn by (simp add: scope_of_update)
next
  case (Declare s)
  with assms have "heap m s = None" by (simp add: scope_of_class)
  then show ?thesis using Declare by (simp add: scope_of_update)
next
  case (Construct p a s)
  with assms obtain t where "heap m a = None" and h: "heap m s = Some (a_thread t)"
    by (auto simp: scope_of_class)
  moreover have "(scope_of m)(s \<mapsto> thread_cls) = scope_of m"
    by (rule scope_of_same) (simp add: scope_of_def h)
  ultimately show ?thesis using Construct by (simp add: autothread_ctor_eq scope_of_update)
next
  case (MoveConstruct p a b)
  with assms obtain x where "heap m a = None" and h: "heap m b = Some (an_autothread p x)"
    by (auto simp: scope_of_class)
  moreover have "(scope_of m)(b \<mapsto> autothread_cls p) = scope_of m"
    by (rule scope_of_same) (simp add: scope_of_def h)
  ultimately show ?thesis using MoveConstruct by (simp add: autothread_move_eq scope_of_update)
next
  case (CopyConstruct p a b)
  with assms show ?thesis by (simp add: callable_def)
next
  case (MoveAssign p a b)
  with assms show ?thesis by (simp add: callable_def for_rvalue_def)
next
  case (CopyAssign p a b)
  with assms show ?thesis by (simp add: callable_def)
next
  case (GetId a)
  with assms obtain p x where h: "heap m a = Some (an_autothread p x)"
    by (auto simp: scope_of_class split: option.splits cls.splits)
  have "(scope_of m)(a \<mapsto> autothread_cls p) = scope_of m"
    by (rule scope_of_same) (simp add: scope_of_def h)
  then show ?thesis using GetId h by (simp add: get_id_def scope_of_update)
next
  case (Destroy a)
  show ?thesis
  proof (cases "heap m a")
    case None
    with assms Destroy show ?thesis by (simp add: scope_of_def)
  next
    case (Some ob)
    show ?thesis
    proof (cases ob)
      case (a_thread t)
      with Some Destroy show ?thesis
        by (simp add: thread_dtor_def scope_of_update)
    next
      case (an_autothread p x)
      with Some Destroy show ?thesis
        by (cases "autothread_dtor p self x (env m)") (simp_all add: scope_of_update)
    next
      case destroyed
      with assms Some Destroy show ?thesis by (simp add: scope_of_def)
    qed
  qed
qed

lemma run_compiled:
  "compiles_all (scope_of m) sts \<Longrightarrow>
   (\<exists>m'. run self sts m = Inr m') \<or> (\<exists>w. run self sts m = Inl (std_terminate, w))"
proof (induction sts arbitrary: m)
  case Nil
  then show ?case by simp
next
  case (Cons st sts)
  then have c: "compiles (scope_of m) st" and cs: "compiles_all (scope_after st (scope_of m)) sts"
    by simp_all
  from exec_compiled[OF c, of self] show ?case
  proof
    assume "\<exists>m'. exec self st m = Inr m' \<and> scope_of m' = scope_after st (scope_of m)"
    then obtain m1 where e: "exec self st m = Inr m1"
      and s: "scope_of m1 = scope_after st (scope_of m)" by blast
    from Cons.IH[of m1] cs s e show ?thesis by simp
  next
    assume "\<exists>w. exec self st m = Inl (std_terminate, w)"
    then show ?thesis by auto
  qed
qed

section \<open>Disposal happens once\<close>

text \<open>
  Claim C1. In every execution that starts with no objects, no thread has more
  than one join or detach call applied to it, however many owners its handle
  passed through and however the execution ends. When an owner that holds a
  joinable handle is destroyed, no call has been applied to its thread before,
  and exactly one call, the one of the owner's policy, has been applied to it
  afterwards.
\<close>

theorem single_disposal:
  "distinct (map target (calls_of (program self sts init))) \<and>
   (program self sts init = Inr m \<longrightarrow> heap m a = Some (an_autothread p x) \<longrightarrow> thrd x = Some t \<longrightarrow>
      filter (\<lambda>c. target c = t) (calls (env m)) = [] \<and>
      filter (\<lambda>c. target c = t) (calls_of (exec self (Destroy a) m)) = [disposal p t])"
proof (intro conjI impI)
  show "distinct (map target (calls_of (program self sts init)))" by (rule program_distinct)
next
  assume pr: "program self sts init = Inr m" and h: "heap m a = Some (an_autothread p x)"
    and tx: "thrd x = Some t"
  have "owns m a t" using h tx by (simp add: owns_def)
  then have "t \<notin> target ` set (calls (env m))"
    using single_ownerD(3)[OF program_single_owner[OF pr]] by blast
  then show none: "filter (\<lambda>c. target c = t) (calls (env m)) = []"
    by (auto simp: filter_empty_conv)
  have "calls (world_of (autothread_dtor p self x (env m))) = calls (env m) @ [disposal p t]"
    by (simp add: autothread_dtor_calls tx)
  then have "calls_of (exec self (Destroy a) m) = calls (env m) @ [disposal p t]"
    using exec_Destroy_calls[OF h, of self] by (simp del: exec.simps)
  then show "filter (\<lambda>c. target c = t) (calls_of (exec self (Destroy a) m)) = [disposal p t]"
    using none by (cases p) simp_all
qed

theorem single_disposal_witness:
  "\<exists>m. program (0, 0) [Spawn 0 7, Construct join 1 0, MoveConstruct join 2 1,
                        MoveConstruct join 3 2, MoveConstruct join 4 3,
                        Destroy 1, Destroy 2, Destroy 3] init = Inr m \<and>
        heap m 4 = Some (an_autothread join \<lparr>thrd = Some (1, 7)\<rparr>) \<and>
        filter (\<lambda>c. target c = (1, 7)) (calls_of (exec (0, 0) (Destroy 4) m)) = [join_call (1, 7)]"
proof -
  have "\<exists>m. program (0, 0) [Spawn 0 7, Construct join 1 0, MoveConstruct join 2 1,
      MoveConstruct join 3 2, MoveConstruct join 4 3, Destroy 1, Destroy 2, Destroy 3] init = Inr m"
    by (simp add: eval_simps)
  then obtain m where pr: "program (0, 0) [Spawn 0 7, Construct join 1 0, MoveConstruct join 2 1,
      MoveConstruct join 3 2, MoveConstruct join 4 3, Destroy 1, Destroy 2, Destroy 3] init = Inr m"
    by blast
  then have h: "heap m 4 = Some (an_autothread join \<lparr>thrd = Some (1, 7)\<rparr>)"
    by (auto simp: eval_simps)
  from single_disposal[of "(0, 0)" _ m 4 join "\<lparr>thrd = Some (1, 7)\<rparr>" "(1, 7)"] pr h
  show ?thesis by (auto simp del: exec.simps)
qed


section \<open>Destruction applies the policy\<close>

text \<open>
  Claim C2, as the specification states it, fails: an owner of the join policy
  with a joinable handle, destroyed by the thread it owns, does not wait for
  the thread and does not release the handle. The join call fails, the
  destructor does not return, and the thread is not completed.
\<close>

theorem dtor_join_counterexample:
  "joinable (thrd \<lparr>thrd = Some (3, 5)\<rparr>) \<and>
   dtor_body_join (3, 5) \<lparr>thrd = Some (3, 5)\<rparr> \<lparr>calls = [], completed = {}, invalid = {}, deadlocked = {}\<rparr> =
     (Inl resource_deadlock_would_occur,
      \<lparr>calls = [join_call (3, 5)], completed = {}, invalid = {}, deadlocked = {}\<rparr>) \<and>
   autothread_dtor join (3, 5) \<lparr>thrd = Some (3, 5)\<rparr> \<lparr>calls = [], completed = {}, invalid = {}, deadlocked = {}\<rparr> =
     terminated \<lparr>calls = [join_call (3, 5)], completed = {}, invalid = {}, deadlocked = {}\<rparr> \<and>
   (3, 5) \<notin> completed (world_of (autothread_dtor join (3, 5) \<lparr>thrd = Some (3, 5)\<rparr> \<lparr>calls = [], completed = {}, invalid = {}, deadlocked = {}\<rparr>))"
  by (simp add: autothread_dtor_def dtor_body_join_def thread_join_def joinable_def
      thread_get_id_def this_thread_get_id_def)

text \<open>
  Claim C2, amended. When the owned handle is joinable, the destructor of
  either policy applies the call of its policy to the owned thread, once. If
  the join call succeeds, the destructor of \<open>autothread<join>\<close> returns
  with the owned thread completed and the handle released, and it never
  returns without the thread completed. If the detach call succeeds, the
  destructor of \<open>autothread<detach>\<close> returns with the handle released
  and without waiting: the set of completed threads is unchanged. When the
  owned handle is not joinable, the destructor of either policy returns with
  the world unchanged.
\<close>

theorem dtor_applies_policy:
  "(thrd a = Some t \<longrightarrow>
      calls (world_of (autothread_dtor p self a w)) = calls w @ [disposal p t] \<and>
      (thread_join self (thrd a) w = (Inr t', w') \<longrightarrow>
         autothread_dtor join self a w = returned w' \<and> t \<in> completed w' \<and>
         dtor_body_join self a w = (Inr (a\<lparr>thrd := None\<rparr>), w')) \<and>
      (autothread_dtor join self a w = returned w' \<longrightarrow>
         t \<in> completed w' \<and> thread_join self (thrd a) w = (Inr None, w')) \<and>
      (thread_detach (thrd a) w = (Inr t', w') \<longrightarrow>
         autothread_dtor detach self a w = returned w' \<and> completed w' = completed w \<and>
         dtor_body_detach a w = (Inr (a\<lparr>thrd := None\<rparr>), w'))) \<and>
   (\<not> joinable (thrd a) \<longrightarrow>
      autothread_dtor p self a w = returned w \<and> dtor_body p self a w = (Inr a, w))"
proof (intro conjI impI)
  assume tx: "thrd a = Some t"
  show "calls (world_of (autothread_dtor p self a w)) = calls w @ [disposal p t]"
    by (simp add: autothread_dtor_calls tx)
  {
    assume j: "thread_join self (thrd a) w = (Inr t', w')"
    then have t': "t' = None"
      and w': "w' = w\<lparr>calls := calls w @ [join_call t], completed := insert t (completed w)\<rparr>"
      by (auto simp: thread_join_def tx split: if_splits)
    show "t \<in> completed w'" by (simp add: w')
    show b: "dtor_body_join self a w = (Inr (a\<lparr>thrd := None\<rparr>), w')"
      using j by (simp add: dtor_body_join_def joinable_def tx t')
    show "autothread_dtor join self a w = returned w'"
      by (simp add: autothread_dtor_def b thread_dtor_def joinable_def)
  }
  {
    assume r: "autothread_dtor join self a w = returned w'"
    then have ok: "\<not> (snd t = snd self \<or> (self, t) \<in> deadlocked w \<or> t \<in> invalid w)"
      and w': "w' = w\<lparr>calls := calls w @ [join_call t], completed := insert t (completed w)\<rparr>"
      by (auto simp: autothread_dtor_join[OF tx] split: if_splits)
    show "t \<in> completed w'" by (simp add: w')
    show "thread_join self (thrd a) w = (Inr None, w')"
      using ok by (simp add: thread_join_def tx w' thread_get_id_def this_thread_get_id_def)
  }
  {
    assume d: "thread_detach (thrd a) w = (Inr t', w')"
    then have t': "t' = None" and w': "w' = w\<lparr>calls := calls w @ [detach_call t]\<rparr>"
      by (auto simp: thread_detach_def tx split: if_splits)
    show "completed w' = completed w" by (simp add: w')
    show b: "dtor_body_detach a w = (Inr (a\<lparr>thrd := None\<rparr>), w')"
      using d by (simp add: dtor_body_detach_def joinable_def tx t')
    show "autothread_dtor detach self a w = returned w'"
      by (simp add: autothread_dtor_def b thread_dtor_def joinable_def)
  }
next
  assume nj: "\<not> joinable (thrd a)"
  then have "thrd a = None" unfolding joinable_def by blast
  then show "autothread_dtor p self a w = returned w" by (rule autothread_dtor_empty)
  show "dtor_body p self a w = (Inr a, w)"
    using nj by (cases p) (simp_all add: dtor_body_join_def dtor_body_detach_def)
qed

theorem dtor_applies_policy_witness:
  "thread_join (0, 0) (Some (1, 7)) \<lparr>calls = [], completed = {}, invalid = {}, deadlocked = {}\<rparr> =
     (Inr None, \<lparr>calls = [join_call (1, 7)], completed = {(1, 7)}, invalid = {}, deadlocked = {}\<rparr>) \<and>
   autothread_dtor join (0, 0) \<lparr>thrd = Some (1, 7)\<rparr> \<lparr>calls = [], completed = {}, invalid = {}, deadlocked = {}\<rparr> =
     returned \<lparr>calls = [join_call (1, 7)], completed = {(1, 7)}, invalid = {}, deadlocked = {}\<rparr> \<and>
   thread_detach (Some (1, 7)) \<lparr>calls = [], completed = {}, invalid = {}, deadlocked = {}\<rparr> =
     (Inr None, \<lparr>calls = [detach_call (1, 7)], completed = {}, invalid = {}, deadlocked = {}\<rparr>) \<and>
   autothread_dtor detach (0, 0) \<lparr>thrd = Some (1, 7)\<rparr> \<lparr>calls = [], completed = {}, invalid = {}, deadlocked = {}\<rparr> =
     returned \<lparr>calls = [detach_call (1, 7)], completed = {}, invalid = {}, deadlocked = {}\<rparr> \<and>
   \<not> joinable (thrd \<lparr>thrd = None\<rparr>) \<and>
   autothread_dtor join (0, 0) \<lparr>thrd = None\<rparr> \<lparr>calls = [], completed = {}, invalid = {}, deadlocked = {}\<rparr> = returned \<lparr>calls = [], completed = {}, invalid = {}, deadlocked = {}\<rparr>"
proof -
  have j: "thread_join (0, 0) (Some (1, 7)) \<lparr>calls = [], completed = {}, invalid = {}, deadlocked = {}\<rparr> =
     (Inr None, \<lparr>calls = [join_call (1, 7)], completed = {(1, 7)}, invalid = {}, deadlocked = {}\<rparr>)"
    by (simp add: thread_join_def thread_get_id_def this_thread_get_id_def)
  have d: "thread_detach (Some (1, 7)) \<lparr>calls = [], completed = {}, invalid = {}, deadlocked = {}\<rparr> =
     (Inr None, \<lparr>calls = [detach_call (1, 7)], completed = {}, invalid = {}, deadlocked = {}\<rparr>)"
    by (simp add: thread_detach_def)
  have n: "\<not> joinable (thrd \<lparr>thrd = None\<rparr>)" by (simp add: joinable_def)
  from dtor_applies_policy[of "\<lparr>thrd = Some (1, 7)\<rparr>" "(1, 7)" join "(0, 0)" "\<lparr>calls = [], completed = {}, invalid = {}, deadlocked = {}\<rparr>" None
      "\<lparr>calls = [join_call (1, 7)], completed = {(1, 7)}, invalid = {}, deadlocked = {}\<rparr>"]
    dtor_applies_policy[of "\<lparr>thrd = Some (1, 7)\<rparr>" "(1, 7)" detach "(0, 0)" "\<lparr>calls = [], completed = {}, invalid = {}, deadlocked = {}\<rparr>" None
      "\<lparr>calls = [detach_call (1, 7)], completed = {}, invalid = {}, deadlocked = {}\<rparr>"]
    dtor_applies_policy[of "\<lparr>thrd = None\<rparr>" "(1, 7)" join "(0, 0)" "\<lparr>calls = [], completed = {}, invalid = {}, deadlocked = {}\<rparr>"]
    j d n
  show ?thesis by simp
qed

section \<open>A failing call during destruction\<close>

text \<open>
  Claim C7, as the specification states it, fails: when an owner of the join
  policy is destroyed by the thread it owns, the join call fails with
  \<open>resource_deadlock_would_occur\<close>, the failure leaves the destructor body,
  and the destructor does not return: the process is terminated. The main
  thread starts thread 1 and wraps it; thread 1 then destroys the owner.
\<close>

theorem dtor_failure_counterexample:
  "thread_join (1, 7) (Some (1, 7)) \<lparr>calls = [], completed = {}, invalid = {}, deadlocked = {}\<rparr> =
     (Inl resource_deadlock_would_occur,
      \<lparr>calls = [join_call (1, 7)], completed = {}, invalid = {}, deadlocked = {}\<rparr>) \<and>
   dtor_body join (1, 7) \<lparr>thrd = Some (1, 7)\<rparr> \<lparr>calls = [], completed = {}, invalid = {}, deadlocked = {}\<rparr> =
     (Inl resource_deadlock_would_occur,
      \<lparr>calls = [join_call (1, 7)], completed = {}, invalid = {}, deadlocked = {}\<rparr>) \<and>
   autothread_dtor join (1, 7) \<lparr>thrd = Some (1, 7)\<rparr> \<lparr>calls = [], completed = {}, invalid = {}, deadlocked = {}\<rparr> =
     terminated \<lparr>calls = [join_call (1, 7)], completed = {}, invalid = {}, deadlocked = {}\<rparr> \<and>
   program (0, 0) [Spawn 0 7, Construct join 1 0] init =
     Inr \<lparr>heap = [0 \<mapsto> a_thread None, 1 \<mapsto> an_autothread join \<lparr>thrd = Some (1, 7)\<rparr>],
          next_tid = 2, env = \<lparr>calls = [], completed = {}, invalid = {}, deadlocked = {}\<rparr>\<rparr> \<and>
   exec (1, 7) (Destroy 1)
     \<lparr>heap = [0 \<mapsto> a_thread None, 1 \<mapsto> an_autothread join \<lparr>thrd = Some (1, 7)\<rparr>],
      next_tid = 2, env = \<lparr>calls = [], completed = {}, invalid = {}, deadlocked = {}\<rparr>\<rparr> =
     Inl (std_terminate,
          \<lparr>calls = [join_call (1, 7)], completed = {}, invalid = {}, deadlocked = {}\<rparr>)"
  by (simp add: eval_simps)

text \<open>
  Claim C7, amended. A failure of the join or detach call during destruction
  is not swallowed or logged. The destructor bodies have no handler, so the
  failure leaves the body, and since the destructor is \<open>noexcept\<close> the
  process is ended by \<open>std::terminate\<close>: the destructor does not return, no
  exception passes to the caller, and no later statement of the program runs.
\<close>

theorem dtor_failure_terminates:
  "(dtor_body p self a w = (Inl e, w') \<longrightarrow> autothread_dtor p self a w = terminated w') \<and>
   (joinable (thrd a) \<longrightarrow> thread_join self (thrd a) w = (Inl e, w') \<longrightarrow>
      dtor_body join self a w = (Inl e, w') \<and> autothread_dtor join self a w = terminated w') \<and>
   (joinable (thrd a) \<longrightarrow> thread_detach (thrd a) w = (Inl e, w') \<longrightarrow>
      dtor_body detach self a w = (Inl e, w') \<and> autothread_dtor detach self a w = terminated w') \<and>
   (heap m x = Some (an_autothread p a) \<longrightarrow> dtor_body p self a (env m) = (Inl e, w') \<longrightarrow>
      run self (Destroy x # sts) m = Inl (std_terminate, w'))"
proof (intro conjI impI)
  show t: "autothread_dtor p self a w = terminated w'" if "dtor_body p self a w = (Inl e, w')"
    for p w w'
    using that by (simp add: autothread_dtor_def)
  {
    assume "joinable (thrd a)" and "thread_join self (thrd a) w = (Inl e, w')"
    then show b: "dtor_body join self a w = (Inl e, w')" by (simp add: dtor_body_join_def)
    show "autothread_dtor join self a w = terminated w'" by (rule t[OF b])
  }
  {
    assume "joinable (thrd a)" and "thread_detach (thrd a) w = (Inl e, w')"
    then show b: "dtor_body detach self a w = (Inl e, w')" by (simp add: dtor_body_detach_def)
    show "autothread_dtor detach self a w = terminated w'" by (rule t[OF b])
  }
  {
    assume h: "heap m x = Some (an_autothread p a)" and "dtor_body p self a (env m) = (Inl e, w')"
    from t[OF this(2)] h show "run self (Destroy x # sts) m = Inl (std_terminate, w')" by simp
  }
qed

theorem dtor_failure_terminates_witness:
  "autothread_dtor join (1, 7) \<lparr>thrd = Some (1, 7)\<rparr> \<lparr>calls = [], completed = {}, invalid = {}, deadlocked = {}\<rparr> =
     terminated \<lparr>calls = [join_call (1, 7)], completed = {}, invalid = {}, deadlocked = {}\<rparr> \<and>
   autothread_dtor detach (0, 0) \<lparr>thrd = Some (1, 7)\<rparr>
       \<lparr>calls = [], completed = {}, invalid = {(1, 7)}, deadlocked = {}\<rparr> =
     terminated \<lparr>calls = [detach_call (1, 7)], completed = {}, invalid = {(1, 7)}, deadlocked = {}\<rparr> \<and>
   run (1, 7) [Destroy 1, GetId 1]
     \<lparr>heap = [1 \<mapsto> an_autothread join \<lparr>thrd = Some (1, 7)\<rparr>], next_tid = 2, env = \<lparr>calls = [], completed = {}, invalid = {}, deadlocked = {}\<rparr>\<rparr> =
     Inl (std_terminate,
          \<lparr>calls = [join_call (1, 7)], completed = {}, invalid = {}, deadlocked = {}\<rparr>)"
proof -
  have j: "thread_join (1, 7) (Some (1, 7)) \<lparr>calls = [], completed = {}, invalid = {}, deadlocked = {}\<rparr> =
     (Inl resource_deadlock_would_occur,
      \<lparr>calls = [join_call (1, 7)], completed = {}, invalid = {}, deadlocked = {}\<rparr>)"
    by (simp add: thread_join_def thread_get_id_def this_thread_get_id_def)
  have d: "thread_detach (Some (1, 7)) \<lparr>calls = [], completed = {}, invalid = {(1, 7)}, deadlocked = {}\<rparr> =
     (Inl no_such_process,
      \<lparr>calls = [detach_call (1, 7)], completed = {}, invalid = {(1, 7)}, deadlocked = {}\<rparr>)"
    by (simp add: thread_detach_def)
  have b: "dtor_body join (1, 7) \<lparr>thrd = Some (1, 7)\<rparr> \<lparr>calls = [], completed = {}, invalid = {}, deadlocked = {}\<rparr> =
     (Inl resource_deadlock_would_occur,
      \<lparr>calls = [join_call (1, 7)], completed = {}, invalid = {}, deadlocked = {}\<rparr>)"
    by (simp add: dtor_body_join_def joinable_def thread_join_def thread_get_id_def
        this_thread_get_id_def)
  from dtor_failure_terminates[of join "(1, 7)" "\<lparr>thrd = Some (1, 7)\<rparr>" "\<lparr>calls = [], completed = {}, invalid = {}, deadlocked = {}\<rparr>"
      resource_deadlock_would_occur
      "\<lparr>calls = [join_call (1, 7)], completed = {}, invalid = {}, deadlocked = {}\<rparr>"
      "\<lparr>heap = [1 \<mapsto> an_autothread join \<lparr>thrd = Some (1, 7)\<rparr>], next_tid = 2, env = \<lparr>calls = [], completed = {}, invalid = {}, deadlocked = {}\<rparr>\<rparr>"
      1 "[GetId 1]"]
    dtor_failure_terminates[of detach "(0, 0)" "\<lparr>thrd = Some (1, 7)\<rparr>"
      "\<lparr>calls = [], completed = {}, invalid = {(1, 7)}, deadlocked = {}\<rparr>"
      no_such_process
      "\<lparr>calls = [detach_call (1, 7)], completed = {}, invalid = {(1, 7)}, deadlocked = {}\<rparr>"]
    j d b
  show ?thesis by (simp add: joinable_def del: run.simps exec.simps)
qed


section \<open>Moving and constructing\<close>

text \<open>
  Claim C4. Move construction gives the new object the handle the source held
  and leaves the source not joinable. As a statement of a program it changes
  nothing but the two objects: no join or detach call is made. Destroying the
  moved-from source afterwards returns with the world unchanged.
\<close>

theorem move_ctor_transfers:
  "thrd (fst (autothread_move other)) = thrd other \<and>
   thrd (snd (autothread_move other)) = None \<and>
   \<not> joinable (thrd (snd (autothread_move other))) \<and>
   autothread_dtor p self (snd (autothread_move other)) w = returned w \<and>
   (heap m a = None \<longrightarrow> heap m b = Some (an_autothread p other) \<longrightarrow>
      (\<exists>m'. exec self (MoveConstruct p a b) m = Inr m' \<and>
            env m' = env m \<and>
            heap m' a = Some (an_autothread p (fst (autothread_move other))) \<and>
            heap m' b = Some (an_autothread p (snd (autothread_move other))) \<and>
            (\<forall>x. x \<noteq> a \<and> x \<noteq> b \<longrightarrow> heap m' x = heap m x) \<and>
            (\<exists>m''. exec self (Destroy b) m' = Inr m'' \<and> env m'' = env m)))"
proof (intro conjI impI)
  show "thrd (fst (autothread_move other)) = thrd other"
    and e: "thrd (snd (autothread_move other)) = None"
    by (simp_all add: autothread_move_eq)
  then show "\<not> joinable (thrd (snd (autothread_move other)))" by (simp add: joinable_def)
  show d: "autothread_dtor p self (snd (autothread_move other)) w = returned w" for w
    by (rule autothread_dtor_empty[OF e])
  assume fresh: "heap m a = None" and hb: "heap m b = Some (an_autothread p other)"
  then have ab: "a \<noteq> b" by auto
  let ?m' = "m\<lparr>heap := (heap m)(b \<mapsto> an_autothread p (snd (autothread_move other)),
                                 a \<mapsto> an_autothread p (fst (autothread_move other)))\<rparr>"
  have ex: "exec self (MoveConstruct p a b) m = Inr ?m'"
    by (simp add: fresh hb autothread_move_eq)
  have hb': "heap ?m' b = Some (an_autothread p (snd (autothread_move other)))"
    using ab by simp
  have "exec self (Destroy b) ?m' = Inr (?m'\<lparr>heap := (heap ?m')(b \<mapsto> destroyed), env := env m\<rparr>)"
    using ab d[of "env m"] by (simp add: autothread_move_eq)
  then have "\<exists>m''. exec self (Destroy b) ?m' = Inr m'' \<and> env m'' = env m"
    by (simp del: exec.simps)
  with ex ab show "\<exists>m'. exec self (MoveConstruct p a b) m = Inr m' \<and>
            env m' = env m \<and>
            heap m' a = Some (an_autothread p (fst (autothread_move other))) \<and>
            heap m' b = Some (an_autothread p (snd (autothread_move other))) \<and>
            (\<forall>x. x \<noteq> a \<and> x \<noteq> b \<longrightarrow> heap m' x = heap m x) \<and>
            (\<exists>m''. exec self (Destroy b) m' = Inr m'' \<and> env m'' = env m)"
    by (intro exI[of _ ?m']) (simp del: exec.simps)
qed

theorem move_ctor_transfers_witness:
  "\<exists>m'. exec (0, 0) (MoveConstruct detach 2 1)
          \<lparr>heap = [1 \<mapsto> an_autothread detach \<lparr>thrd = Some (1, 7)\<rparr>], next_tid = 2, env = \<lparr>calls = [], completed = {}, invalid = {}, deadlocked = {}\<rparr>\<rparr>
          = Inr m' \<and>
        env m' = \<lparr>calls = [], completed = {}, invalid = {}, deadlocked = {}\<rparr> \<and>
        heap m' 2 = Some (an_autothread detach \<lparr>thrd = Some (1, 7)\<rparr>) \<and>
        heap m' 1 = Some (an_autothread detach \<lparr>thrd = None\<rparr>) \<and>
        (\<exists>m''. exec (0, 0) (Destroy 1) m' = Inr m'' \<and> env m'' = \<lparr>calls = [], completed = {}, invalid = {}, deadlocked = {}\<rparr>)"
  using move_ctor_transfers[of "\<lparr>thrd = Some (1, 7)\<rparr>" detach "(0, 0)" "\<lparr>calls = [], completed = {}, invalid = {}, deadlocked = {}\<rparr>"
      "\<lparr>heap = [1 \<mapsto> an_autothread detach \<lparr>thrd = Some (1, 7)\<rparr>], next_tid = 2, env = \<lparr>calls = [], completed = {}, invalid = {}, deadlocked = {}\<rparr>\<rparr>" 2 1]
  by (auto simp add: autothread_move_eq simp del: exec.simps)

text \<open>
  Claim C6. Constructing an autothread of either policy from a thread object
  that represents no thread succeeds and gives an owner that is not joinable;
  destroying that owner returns with the world unchanged, so no join or
  detach call is made.
\<close>

theorem ctor_from_empty_handle:
  "autothread_ctor None = (\<lparr>thrd = None\<rparr>, None) \<and>
   \<not> joinable (thrd (fst (autothread_ctor None))) \<and>
   autothread_dtor p self (fst (autothread_ctor None)) w = returned w \<and>
   (\<exists>m. program self [Declare 0, Construct p 1 0, Destroy 1] init = Inr m \<and>
        heap m 1 = Some destroyed \<and> calls (env m) = [])"
proof (intro conjI)
  show "autothread_ctor None = (\<lparr>thrd = None\<rparr>, None)" by (rule autothread_ctor_eq)
  then show "\<not> joinable (thrd (fst (autothread_ctor None)))" by (simp add: joinable_def)
  show "autothread_dtor p self (fst (autothread_ctor None)) w = returned w"
    by (rule autothread_dtor_empty) (simp add: autothread_ctor_eq)
  have "autothread_dtor p self \<lparr>thrd = None\<rparr> w' = returned w'" for w'
    by (rule autothread_dtor_empty) simp
  then show "\<exists>m. program self [Declare 0, Construct p 1 0, Destroy 1] init = Inr m \<and>
        heap m 1 = Some destroyed \<and> calls (env m) = []"
    by (simp add: program_def init_def scope_of_def callable_def autothread_ctor_eq)
qed

section \<open>The identity query\<close>

text \<open>
  Claim C9. On an owner that holds a thread, \<open>get_id\<close> returns the id that
  the thread object reports for the owned thread, which carries the id value
  of that thread and is not the id of no thread. Two owners that hold the same
  thread get equal ids, and the id is the same before and after the handle is
  moved to a new owner. The owner is left as it was, still joinable, and as a
  statement of a program the query leaves every object and the world
  unchanged.
\<close>

theorem get_id_of_owned:
  "thrd a = Some t \<longrightarrow>
     fst (get_id a) = thread_get_id (Some t) \<and> fst (get_id a) = id_of (snd t) \<and>
     fst (get_id a) \<noteq> no_thread \<and>
     (thrd b = Some t \<longrightarrow> fst (get_id b) = fst (get_id a)) \<and>
     fst (get_id (fst (autothread_move a))) = fst (get_id a) \<and>
     snd (get_id a) = a \<and> joinable (thrd (snd (get_id a))) \<and>
     (heap m x = Some (an_autothread p a) \<longrightarrow> exec self (GetId x) m = Inr m)"
proof (intro impI conjI)
  assume tx: "thrd a = Some t"
  show "fst (get_id a) = thread_get_id (Some t)" "fst (get_id a) = id_of (snd t)"
    "fst (get_id a) \<noteq> no_thread" "snd (get_id a) = a" "joinable (thrd (snd (get_id a)))"
    "fst (get_id (fst (autothread_move a))) = fst (get_id a)"
    by (simp_all add: get_id_def thread_get_id_def joinable_def autothread_move_eq tx)
  {
    assume "thrd b = Some t"
    then show "fst (get_id b) = fst (get_id a)" by (simp add: get_id_def tx)
  }
  assume h: "heap m x = Some (an_autothread p a)"
  then have "(heap m)(x \<mapsto> an_autothread p a) = heap m" by (rule map_upd_triv)
  then show "exec self (GetId x) m = Inr m" by (simp add: h get_id_def)
qed

theorem get_id_of_owned_witness:
  "fst (get_id \<lparr>thrd = Some (1, 7)\<rparr>) = id_of 7 \<and>
   fst (get_id (fst (autothread_move \<lparr>thrd = Some (1, 7)\<rparr>))) = id_of 7 \<and>
   snd (get_id \<lparr>thrd = Some (1, 7)\<rparr>) = \<lparr>thrd = Some (1, 7)\<rparr> \<and>
   exec (0, 0) (GetId 3)
     \<lparr>heap = [3 \<mapsto> an_autothread join \<lparr>thrd = Some (1, 7)\<rparr>], next_tid = 2, env = \<lparr>calls = [], completed = {}, invalid = {}, deadlocked = {}\<rparr>\<rparr> =
     Inr \<lparr>heap = [3 \<mapsto> an_autothread join \<lparr>thrd = Some (1, 7)\<rparr>], next_tid = 2, env = \<lparr>calls = [], completed = {}, invalid = {}, deadlocked = {}\<rparr>\<rparr>"
  using get_id_of_owned[of "\<lparr>thrd = Some (1, 7)\<rparr>" "(1, 7)" "\<lparr>thrd = Some (1, 7)\<rparr>"
      "\<lparr>heap = [3 \<mapsto> an_autothread join \<lparr>thrd = Some (1, 7)\<rparr>], next_tid = 2, env = \<lparr>calls = [], completed = {}, invalid = {}, deadlocked = {}\<rparr>\<rparr>"
      3 join "(0, 0)"]
  by (simp add: get_id_def thread_get_id_def autothread_move_eq del: exec.simps)

text \<open>
  Claim C10. On an owner whose handle is empty, \<open>get_id\<close> returns the
  default constructed id, which represents no thread, and leaves the owner
  as it was; this is so for an owner that was moved from and for one
  constructed from an empty thread object. As a statement of a program the
  query does not fault.
\<close>

theorem get_id_of_empty:
  "(thrd a = None \<longrightarrow>
      get_id a = (no_thread, a) \<and>
      (heap m x = Some (an_autothread p a) \<longrightarrow> exec self (GetId x) m = Inr m)) \<and>
   fst (get_id (snd (autothread_move b))) = no_thread \<and>
   fst (get_id (fst (autothread_ctor None))) = no_thread"
proof (intro impI conjI)
  show "fst (get_id (snd (autothread_move b))) = no_thread"
    "fst (get_id (fst (autothread_ctor None))) = no_thread"
    by (simp_all add: get_id_def thread_get_id_def autothread_move_eq autothread_ctor_eq)
  assume e: "thrd a = None"
  then show "get_id a = (no_thread, a)" by (simp add: get_id_def thread_get_id_def)
  assume h: "heap m x = Some (an_autothread p a)"
  then have "(heap m)(x \<mapsto> an_autothread p a) = heap m" by (rule map_upd_triv)
  then show "exec self (GetId x) m = Inr m" by (simp add: h get_id_def)
qed

theorem get_id_of_empty_witness:
  "get_id \<lparr>thrd = None\<rparr> = (no_thread, \<lparr>thrd = None\<rparr>) \<and>
   exec (0, 0) (GetId 3)
     \<lparr>heap = [3 \<mapsto> an_autothread detach \<lparr>thrd = None\<rparr>], next_tid = 1, env = \<lparr>calls = [], completed = {}, invalid = {}, deadlocked = {}\<rparr>\<rparr> =
     Inr \<lparr>heap = [3 \<mapsto> an_autothread detach \<lparr>thrd = None\<rparr>], next_tid = 1, env = \<lparr>calls = [], completed = {}, invalid = {}, deadlocked = {}\<rparr>\<rparr>"
  using get_id_of_empty[of "\<lparr>thrd = None\<rparr>"
      "\<lparr>heap = [3 \<mapsto> an_autothread detach \<lparr>thrd = None\<rparr>], next_tid = 1, env = \<lparr>calls = [], completed = {}, invalid = {}, deadlocked = {}\<rparr>\<rparr>"
      3 detach "(0, 0)"]
  by (simp del: exec.simps)

section \<open>Copying and assigning\<close>

text \<open>
  Claim C5. For both specialisations the copy constructor and the copy
  assignment operator are deleted, so the compiler rejects a statement that
  copy constructs or copy assigns an autothread, in every scope, and a program
  that contains one is rejected as a whole: nothing of it is executed.
\<close>

theorem copy_is_rejected:
  "special_member (declared p) copy_ctor = Some deleted \<and>
   special_member (declared p) copy_assign = Some deleted \<and>
   \<not> compiles \<Gamma> (CopyConstruct p a b) \<and> \<not> compiles \<Gamma> (CopyAssign p a b) \<and>
   (CopyConstruct p a b \<in> set sts \<or> CopyAssign p a b \<in> set sts \<longrightarrow>
      program self sts m = Inl (ill_formed, env m))"
proof (intro conjI impI)
  show "special_member (declared p) copy_ctor = Some deleted"
    and "special_member (declared p) copy_assign = Some deleted" by simp_all
  show c1: "\<not> compiles \<Gamma> (CopyConstruct p a b)" and c2: "\<not> compiles \<Gamma> (CopyAssign p a b)"
    for \<Gamma>
    by (simp_all add: callable_def)
  assume "CopyConstruct p a b \<in> set sts \<or> CopyAssign p a b \<in> set sts"
  then show "program self sts m = Inl (ill_formed, env m)"
    using c1 c2 program_rejects by blast
qed

theorem copy_is_rejected_witness:
  "program (0, 0) [Spawn 0 7, Construct join 1 0, CopyConstruct join 2 1, Destroy 1] init =
     Inl (ill_formed, \<lparr>calls = [], completed = {}, invalid = {}, deadlocked = {}\<rparr>) \<and>
   program (0, 0) [Spawn 0 7, Construct detach 1 0, Spawn 2 8, Construct detach 3 2,
                   CopyAssign detach 1 3] init =
     Inl (ill_formed, \<lparr>calls = [], completed = {}, invalid = {}, deadlocked = {}\<rparr>)"
  using copy_is_rejected[of join _ 2 1
      "[Spawn 0 7, Construct join 1 0, CopyConstruct join 2 1, Destroy 1]" "(0, 0)" init]
    copy_is_rejected[of detach _ 1 3
      "[Spawn 0 7, Construct detach 1 0, Spawn 2 8, Construct detach 3 2, CopyAssign detach 1 3]"
      "(0, 0)" init]
  by (simp add: init_def)

text \<open>
  Claim C3, as the specification states it, fails: a program that move assigns
  onto an owner holding a joinable handle is rejected by the compiler, so no
  join call is applied to the thread the destination holds and nothing is
  adopted. The statements before the assignment compile; the assignment does
  not.
\<close>

theorem move_assign_counterexample:
  "compiles_all (scope_of init) [Spawn 0 7, Construct join 1 0, Spawn 2 8, Construct join 3 2] \<and>
   program (0, 0) [Spawn 0 7, Construct join 1 0, Spawn 2 8, Construct join 3 2,
                   MoveAssign join 1 3] init =
     Inl (ill_formed, \<lparr>calls = [], completed = {}, invalid = {}, deadlocked = {}\<rparr>) \<and>
   join_call (1, 7) \<notin> set (calls_of (program (0, 0) [Spawn 0 7, Construct join 1 0, Spawn 2 8,
                   Construct join 3 2, MoveAssign join 1 3] init)) \<and>
   run (0, 0) [Spawn 0 7, Construct join 1 0, Spawn 2 8, Construct join 3 2,
               MoveAssign join 1 3] init =
     Inl (ill_formed, \<lparr>calls = [], completed = {}, invalid = {}, deadlocked = {}\<rparr>)"
  by (simp add: program_def init_def scope_of_def callable_def for_rvalue_def autothread_ctor_eq)

text \<open>
  Claim C3, amended. Neither specialisation has a move assignment operator:
  none is declared, and none is declared implicitly because the class
  declares a copy constructor, a move constructor and a destructor. The copy
  assignment operator, which an assignment from an rvalue then selects, is
  deleted. The compiler rejects every move assignment onto an autothread, in
  every scope, and a program that contains one is rejected as a whole:
  nothing of it is executed.
\<close>

theorem move_assign_is_rejected:
  "special_member (declared p) move_assign = None \<and>
   for_rvalue p move_assign copy_assign = copy_assign \<and>
   special_member (declared p) copy_assign = Some deleted \<and>
   \<not> compiles \<Gamma> (MoveAssign p a b) \<and>
   (MoveAssign p a b \<in> set sts \<longrightarrow> program self sts m = Inl (ill_formed, env m))"
proof (intro conjI impI)
  show "special_member (declared p) move_assign = None"
    and "for_rvalue p move_assign copy_assign = copy_assign"
    and "special_member (declared p) copy_assign = Some deleted"
    by (simp_all add: for_rvalue_def)
  show c: "\<not> compiles \<Gamma> (MoveAssign p a b)" for \<Gamma>
    by (simp add: callable_def for_rvalue_def)
  assume "MoveAssign p a b \<in> set sts"
  then show "program self sts m = Inl (ill_formed, env m)" using c by (rule program_rejects)
qed

theorem move_assign_is_rejected_witness:
  "program (0, 0) [Spawn 0 7, Construct detach 1 0, Spawn 2 8, Construct detach 3 2,
                   MoveAssign detach 1 3, Destroy 1, Destroy 3] init =
     Inl (ill_formed, \<lparr>calls = [], completed = {}, invalid = {}, deadlocked = {}\<rparr>)"
  using move_assign_is_rejected[of detach _ 1 3 "[Spawn 0 7, Construct detach 1 0, Spawn 2 8,
      Construct detach 3 2, MoveAssign detach 1 3, Destroy 1, Destroy 3]" "(0, 0)" init]
  by (simp add: init_def)

section \<open>No way back to joinable\<close>

lemma exec_handle:
  assumes "exec self st m = Inr m'" and "heap m x = Some ob"
  shows "\<exists>ob'. heap m' x = Some ob' \<and> (handle_of ob' = handle_of ob \<or> handle_of ob' = None)"
proof (cases st)
  case (Destroy a)
  with assms show ?thesis
    by (cases "x = a") (auto split: option.splits object.splits exit.splits)
qed (use assms in \<open>auto simp: autothread_ctor_eq autothread_move_eq get_id_def
        split: option.splits object.splits if_splits\<close>)

lemma run_handle:
  "run self sts m = Inr m' \<Longrightarrow> heap m x = Some ob \<Longrightarrow>
   \<exists>ob'. heap m' x = Some ob' \<and> (handle_of ob' = handle_of ob \<or> handle_of ob' = None)"
proof (induction sts arbitrary: m ob)
  case Nil
  then show ?case by simp
next
  case (Cons st sts)
  from Cons.prems(1) obtain m1 where e: "exec self st m = Inr m1" and r: "run self sts m1 = Inr m'"
    by (auto split: sum.splits)
  from exec_handle[OF e Cons.prems(2)] obtain ob1 where h1: "heap m1 x = Some ob1"
    and k1: "handle_of ob1 = handle_of ob \<or> handle_of ob1 = None" by blast
  from Cons.IH[OF r h1] obtain ob' where "heap m' x = Some ob'"
    and "handle_of ob' = handle_of ob1 \<or> handle_of ob' = None" by blast
  with k1 show ?case by auto
qed

text \<open>
  Claim C8. Whatever statements a program executes, an object that exists
  keeps its address and its handle either stays the one it was or becomes
  empty: an owner is never pointed to a different thread, and an owner that is
  not joinable, whether moved from or destroyed, is never joinable again.
  In an execution that starts with no objects, a thread that a join or detach
  call has been applied to is held by no object.
\<close>

theorem never_joinable_again:
  "(program self sts m = Inr m' \<longrightarrow> heap m x = Some ob \<longrightarrow>
      (\<exists>ob'. heap m' x = Some ob' \<and>
             (handle_of ob' = handle_of ob \<or> handle_of ob' = None) \<and>
             (\<not> joinable (handle_of ob) \<longrightarrow> \<not> joinable (handle_of ob')))) \<and>
   (program self sts init = Inr m' \<longrightarrow> c \<in> set (calls (env m')) \<longrightarrow> \<not> owns m' x (target c))"
proof (intro conjI impI)
  assume "program self sts m = Inr m'" and h: "heap m x = Some ob"
  then have "run self sts m = Inr m'" by (simp add: program_def split: if_splits)
  from run_handle[OF this h] show "\<exists>ob'. heap m' x = Some ob' \<and>
             (handle_of ob' = handle_of ob \<or> handle_of ob' = None) \<and>
             (\<not> joinable (handle_of ob) \<longrightarrow> \<not> joinable (handle_of ob'))"
    by (auto simp: joinable_def)
next
  assume pr: "program self sts init = Inr m'" and c: "c \<in> set (calls (env m'))"
  show "\<not> owns m' x (target c)"
    using single_ownerD(3)[OF program_single_owner[OF pr], of x "target c"] c by blast
qed

theorem never_joinable_again_witness:
  "\<exists>m'. program (0, 0) [Spawn 0 7, Construct join 1 0, MoveConstruct join 2 1, GetId 1,
                         Destroy 2, Spawn 3 7, Construct detach 4 3, GetId 4] init = Inr m' \<and>
         join_call (1, 7) \<in> set (calls (env m')) \<and> \<not> owns m' 4 (1, 7) \<and>
    (\<exists>m''. program (0, 0) [GetId 1, Spawn 5 9, Construct join 6 5, MoveConstruct join 7 6,
                           Destroy 1] m' = Inr m'' \<and>
           heap m' 1 = Some (an_autothread join \<lparr>thrd = None\<rparr>) \<and>
           (\<exists>ob'. heap m'' 1 = Some ob' \<and> \<not> joinable (handle_of ob')))"
proof -
  have "\<exists>m'. program (0, 0) [Spawn 0 7, Construct join 1 0, MoveConstruct join 2 1, GetId 1,
      Destroy 2, Spawn 3 7, Construct detach 4 3, GetId 4] init = Inr m'"
    by (simp add: eval_simps)
  then obtain m' where pr: "program (0, 0) [Spawn 0 7, Construct join 1 0,
      MoveConstruct join 2 1, GetId 1, Destroy 2, Spawn 3 7, Construct detach 4 3, GetId 4] init
      = Inr m'"
    by blast
  then have c: "join_call (1, 7) \<in> set (calls (env m'))"
    and h: "heap m' 1 = Some (an_autothread join \<lparr>thrd = None\<rparr>)"
    by (auto simp: eval_simps)
  have "\<exists>m''. program (0, 0) [GetId 1, Spawn 5 9, Construct join 6 5, MoveConstruct join 7 6,
      Destroy 1] m' = Inr m''"
    using pr by (auto simp: eval_simps)
  then obtain m'' where pr2: "program (0, 0) [GetId 1, Spawn 5 9, Construct join 6 5,
      MoveConstruct join 7 6, Destroy 1] m' = Inr m''"
    by blast
  have nj: "\<not> joinable (handle_of (an_autothread join \<lparr>thrd = None\<rparr>))"
    by (simp add: joinable_def)
  have "\<exists>ob'. heap m'' 1 = Some ob' \<and> \<not> joinable (handle_of ob')"
    using never_joinable_again[where self = "(0, 0)" and m = m' and m' = m'' and x = 1
        and ob = "an_autothread join \<lparr>thrd = None\<rparr>"
        and sts = "[GetId 1, Spawn 5 9, Construct join 6 5, MoveConstruct join 7 6, Destroy 1]"]
      pr2 h nj
    by blast
  moreover have "\<not> owns m' 4 (1, 7)"
    using never_joinable_again[where self = "(0, 0)" and m' = m' and x = 4
        and c = "join_call (1, 7)"
        and sts = "[Spawn 0 7, Construct join 1 0, MoveConstruct join 2 1, GetId 1, Destroy 2,
                    Spawn 3 7, Construct detach 4 3, GetId 4]"]
      pr c
    by simp
  ultimately show ?thesis using pr pr2 c h by blast
qed

end
